theory Spec2Isabelle
  imports Main "HOL-Library.Word" "HOL-Library.Sublist"
begin

unbundle bit_operations_syntax

section \<open>loolwsd: the session broker of LOOLWSD.cpp\<close>

text \<open>
  This theory embeds the parts of \<^verbatim>\<open>loolwsd/LOOLWSD.cpp\<close> that decide how a master-side
  WebSocket session receives frames (\<^verbatim>\<open>WebSocketRequestHandler::handleRequest\<close>), how the
  queue consumer runs (\<^verbatim>\<open>QueueHandler::run\<close>), how the child receives frames
  (\<^verbatim>\<open>LOOLWSD::componentMain\<close>), how child identifiers are drawn, how the reaper loop of
  \<^verbatim>\<open>LOOLWSD::desktopMain\<close> iterates, and how files are linked into a jail
  (\<^verbatim>\<open>linkOrCopyFunction\<close>) or transferred (\<^verbatim>\<open>FileTransferHandler::transferFile\<close>).

  Strings are byte strings (\<^typ>\<open>string\<close>). What the file calls but does not define
  (Poco, libc, \<^verbatim>\<open>tsqueue.h\<close>, \<^verbatim>\<open>LOOLProtocol\<close>, \<^verbatim>\<open>LOOLSession\<close>) is modelled by the small
  definitions of the next sections or taken as a parameter, as each definition says.
\<close>

section \<open>Strings\<close>

text \<open>
  \<^verbatim>\<open>std::string::find(needle)\<close>: the position of the first occurrence of the needle, or
  \<^verbatim>\<open>npos\<close> (\<^const>\<open>None\<close>).
\<close>

fun string_find :: "string \<Rightarrow> string \<Rightarrow> nat option" where
  "string_find needle [] = (if needle = [] then Some 0 else None)"
| "string_find needle (c # cs) =
     (if take (length needle) (c # cs) = needle then Some 0
      else map_option Suc (string_find needle cs))"

text \<open>
  Modelled from the spec: \<^verbatim>\<open>LOOLProtocol::getFirstLine\<close> is not in the sources. The first
  line of a frame is the command, up to (not including) the first line feed; the rest is
  payload.
\<close>

definition getFirstLine :: "string \<Rightarrow> string" where
  "getFirstLine message = takeWhile (\<lambda>c. c \<noteq> CHR 0x0A) message"

text \<open>
  Modelled from the spec: \<^verbatim>\<open>Poco::StringTokenizer\<close> is an external library class. The file
  always calls it with the separator \<^verbatim>\<open>" "\<close> and the options
  \<^verbatim>\<open>TOK_IGNORE_EMPTY | TOK_TRIM\<close>: the string is cut at every space, each piece is trimmed
  of leading and trailing white space (\<^verbatim>\<open>Poco::Ascii::isSpace\<close>), and empty pieces are
  dropped. \<open>StringTokenizer_loop\<close> is the scan, with the piece read so far.
\<close>

definition isSpace :: "char \<Rightarrow> bool" where
  "isSpace c = (c = CHR '' '' \<or> c = CHR 0x09 \<or> c = CHR 0x0A \<or> c = CHR 0x0B
                \<or> c = CHR 0x0C \<or> c = CHR 0x0D)"

definition trim :: "string \<Rightarrow> string" where
  "trim s = rev (dropWhile isSpace (rev (dropWhile isSpace s)))"

definition push_token :: "string \<Rightarrow> string list" where
  "push_token token = (if trim token = [] then [] else [trim token])"

fun StringTokenizer_loop :: "string \<Rightarrow> string \<Rightarrow> string list" where
  "StringTokenizer_loop token [] = push_token token"
| "StringTokenizer_loop token (c # cs) =
     (if c = CHR '' '' then push_token token @ StringTokenizer_loop [] cs
      else StringTokenizer_loop (token @ [c]) cs)"

definition StringTokenizer :: "string \<Rightarrow> string list" where
  "StringTokenizer str = StringTokenizer_loop [] str"

text \<open>
  Modelled from the spec: \<^verbatim>\<open>LOOLProtocol::getTokenInteger\<close> is not in the sources. A token
  \<^verbatim>\<open>name=N\<close> with \<open>N\<close> a decimal numeral that fits a C \<^verbatim>\<open>int\<close> yields \<open>N\<close>; any other
  token yields nothing (the function returns false).
\<close>

definition isDigit :: "char \<Rightarrow> bool" where
  "isDigit c = (48 \<le> (of_char c :: nat) \<and> (of_char c :: nat) \<le> 57)"

definition digit_value :: "char \<Rightarrow> int" where
  "digit_value c = of_char c - 48"

definition decimal :: "string \<Rightarrow> int" where
  "decimal ds = foldl (\<lambda>v c. 10 * v + digit_value c) 0 ds"

definition getTokenInteger :: "string \<Rightarrow> string \<Rightarrow> int option" where
  "getTokenInteger token name =
     (if length token < length name + 2 \<or> take (length name) token \<noteq> name
         \<or> token ! length name \<noteq> CHR ''=''
      then None
      else let ds = drop (length name + 1) token in
        if list_all isDigit ds \<and> decimal ds \<le> 2147483647 then Some (decimal ds) else None)"

section \<open>The work queue\<close>

text \<open>
  Modelled from the spec: \<^verbatim>\<open>tsqueue.h\<close> is not in the sources. The queue is a FIFO of
  strings: \<open>put\<close> appends at the tail, \<open>get\<close> takes the head (and blocks on an empty
  queue), \<open>remove_if\<close> drops every element the predicate holds for and keeps the others in
  their order, \<open>clear\<close> drops everything. Each operation is atomic (the queue's mutex).
\<close>

fun remove_if :: "('a \<Rightarrow> bool) \<Rightarrow> 'a list \<Rightarrow> 'a list" where
  "remove_if p [] = []"
| "remove_if p (x # xs) = (if p x then remove_if p xs else x # remove_if p xs)"

text \<open>
  The predicate both receivers pass to \<^verbatim>\<open>remove_if\<close>:
  \<^verbatim>\<open>x.find("tile ") == 0 && x.find("id=") == std::string::npos\<close>.
\<close>

definition canceltiles_pred :: "string \<Rightarrow> bool" where
  "canceltiles_pred x = (string_find ''tile '' x = Some 0 \<and> string_find ''id='' x = None)"

section \<open>The WebSocket\<close>

text \<open>
  \<^verbatim>\<open>Poco::Net::WebSocket\<close> is external. A socket is the list of what its next calls of
  \<^verbatim>\<open>receiveFrame\<close> will meet: a frame (payload and flags) or an exception. A frame whose
  payload is longer than the buffer makes \<^verbatim>\<open>receiveFrame\<close> throw a
  \<^verbatim>\<open>WebSocketException\<close>; on the exhausted list the peer has shut the connection down and
  \<^verbatim>\<open>receiveFrame\<close> returns 0 bytes.
\<close>

datatype exn = WebSocketException | IOException

datatype ws_event = Frame string int | Failure exn

fun receiveFrame :: "ws_event list \<Rightarrow> nat \<Rightarrow> (exn + string \<times> int) \<times> ws_event list" where
  "receiveFrame [] len = (Inr ([], 0), [])"
| "receiveFrame (Frame payload flags # es) len =
     (if len < length payload then (Inl WebSocketException, es) else (Inr (payload, flags), es))"
| "receiveFrame (Failure e # es) len = (Inl e, es)"

text \<open>
  \<^verbatim>\<open>(flags & WebSocket::FRAME_OP_BITMASK) == WebSocket::FRAME_OP_CLOSE\<close>, with the mask
  \<^verbatim>\<open>0x0f\<close> and the close opcode \<^verbatim>\<open>0x08\<close>.
\<close>

definition is_close :: "int \<Rightarrow> bool" where
  "is_close flags = (flags AND 0x0F = 0x08)"

section \<open>The receiver of a master-side session\<close>

datatype Kind = ToClient | ToPrisoner | ToChild

text \<open>
  What a thread did, in order: the log the theorems read. It records each
  \<^verbatim>\<open>receiveFrame\<close> with its buffer size, each \<^verbatim>\<open>handleInput\<close> with its bytes, and each
  queue operation.
\<close>

datatype call = ReceiveFrame nat | HandleInput string | Put string | RemoveIf | Clear

text \<open>
  The state a receiver works on: the socket, the session's queue, the session object (of
  any type \<open>'s\<close>: \<^verbatim>\<open>LOOLSession\<close> is not in the sources) and the log.
  \<^verbatim>\<open>handleInput\<close> is a parameter \<open>hI\<close> of every function below: it takes the session and
  the bytes and returns its boolean and the session it leaves.
\<close>

record 's receiver =
  ws :: "ws_event list"
  queue :: "string list"
  session :: 's
  calls :: "call list"

definition ws_receiveFrame ::
  "nat \<Rightarrow> ('s, 'z) receiver_scheme \<Rightarrow> (exn + string \<times> int) \<times> ('s, 'z) receiver_scheme" where
  "ws_receiveFrame len st =
     (case receiveFrame (ws st) len of
        (r, es) \<Rightarrow> (r, st\<lparr>ws := es, calls := calls st @ [ReceiveFrame len]\<rparr>))"

definition session_handleInput ::
  "('s \<Rightarrow> string \<Rightarrow> bool \<times> 's) \<Rightarrow> string \<Rightarrow> ('s, 'z) receiver_scheme
     \<Rightarrow> bool \<times> ('s, 'z) receiver_scheme" where
  "session_handleInput hI buffer st =
     (case hI (session st) buffer of
        (r, s) \<Rightarrow> (r, st\<lparr>session := s, calls := calls st @ [HandleInput buffer]\<rparr>))"

definition queue_put :: "string \<Rightarrow> ('s, 'z) receiver_scheme \<Rightarrow> ('s, 'z) receiver_scheme" where
  "queue_put x st = st\<lparr>queue := queue st @ [x], calls := calls st @ [Put x]\<rparr>"

definition queue_remove_if ::
  "(string \<Rightarrow> bool) \<Rightarrow> ('s, 'z) receiver_scheme \<Rightarrow> ('s, 'z) receiver_scheme" where
  "queue_remove_if p st = st\<lparr>queue := remove_if p (queue st), calls := calls st @ [RemoveIf]\<rparr>"

definition queue_clear :: "('s, 'z) receiver_scheme \<Rightarrow> ('s, 'z) receiver_scheme" where
  "queue_clear st = st\<lparr>queue := [], calls := calls st @ [Clear]\<rparr>"

text \<open>
  How one pass through the body of a receive loop ends: the loop condition holds
  (\<open>Continue\<close>) or fails (\<open>Finish\<close>), an exception leaves the loop (\<open>Throw\<close>), or an
  \<^verbatim>\<open>assert\<close> fails (\<open>Abort\<close>).
\<close>

datatype outcome = Continue | Finish | Throw exn | Abort

text \<open>
  \<^verbatim>\<open>tokens.count() == 2 && tokens[0] == "nextmessage:" &&
  getTokenInteger(tokens[1], "size", size) && size > 0\<close>: the size, when the condition holds.
\<close>

definition nextmessage_size :: "string list \<Rightarrow> int option" where
  "nextmessage_size tokens =
     (if length tokens = 2 \<and> tokens ! 0 = ''nextmessage:'' then
        (case getTokenInteger (tokens ! 1) ''size'' of
           Some sz \<Rightarrow> if 0 < sz then Some sz else None
         | None \<Rightarrow> None)
      else None)"

text \<open>
  One pass through the \<^verbatim>\<open>do ... while\<close> of \<^verbatim>\<open>WebSocketRequestHandler::handleRequest\<close>
  (lines 222 to 274), for a session of the given kind. The loop goes on while the last
  \<^verbatim>\<open>n\<close> is positive and the last flags are not a close; a \<^verbatim>\<open>handleInput\<close> that returns
  false sets \<^verbatim>\<open>n = 0\<close>, except on the canceltiles path, which ignores what it returns.
\<close>

definition handleRequest_iteration ::
  "Kind \<Rightarrow> ('s \<Rightarrow> string \<Rightarrow> bool \<times> 's) \<Rightarrow> ('s, 'z) receiver_scheme
     \<Rightarrow> outcome \<times> ('s, 'z) receiver_scheme" where
  "handleRequest_iteration kind hI st =
     (case ws_receiveFrame 100000 st of
        (Inl e, st1) \<Rightarrow> (Throw e, st1)
      | (Inr (buffer, flags), st1) \<Rightarrow>
          if 0 < length buffer \<and> \<not> is_close flags then
            let firstLine = getFirstLine buffer;
                tokens = StringTokenizer firstLine
            in
              if kind = ToClient \<and> length firstLine = length buffer then
                if length tokens = 1 \<and> tokens ! 0 = ''canceltiles'' then
                  (Continue,
                   snd (session_handleInput hI buffer (queue_remove_if canceltiles_pred st1)))
                else (Continue, queue_put firstLine st1)
              else
                (case nextmessage_size tokens of
                   Some sz \<Rightarrow>
                     (case ws_receiveFrame (nat sz) st1 of
                        (Inl e, st2) \<Rightarrow> (Throw e, st2)
                      | (Inr (largeBuffer, flags2), st2) \<Rightarrow>
                          if 0 < length largeBuffer \<and> \<not> is_close flags2 then
                            (case session_handleInput hI largeBuffer st2 of
                               (r, st3) \<Rightarrow> (if r then Continue else Finish, st3))
                          else (Finish, st2))
                 | None \<Rightarrow>
                     (case session_handleInput hI buffer st1 of
                        (r, st2) \<Rightarrow> (if r then Continue else Finish, st2)))
          else (Finish, st1))"

section \<open>The queue consumer and the two threads of a session\<close>

text \<open>
  A session as its two threads see it: the receiver's state, where the receiver stands
  (in its loop, after \<^verbatim>\<open>queue.clear()\<close>, or after \<^verbatim>\<open>queue.put("eof")\<close> and waiting in
  \<^verbatim>\<open>join()\<close>), whether the consumer thread is in its loop, and what the consumer has
  handed to \<^verbatim>\<open>handleInput\<close>.
\<close>

datatype phase = Receiving | Cleared | Joining

record 's system = "'s receiver" +
  receiver_phase :: phase
  consumer_running :: bool
  consumed :: "string list"

text \<open>
  One pass through the loop of \<^verbatim>\<open>QueueHandler::run\<close> (lines 156 to 163) on a queue that
  is not empty: \<^verbatim>\<open>get()\<close> takes the head; the loop ends on \<^verbatim>\<open>"eof"\<close> and when
  \<^verbatim>\<open>handleInput\<close> returns false. On the empty queue \<^verbatim>\<open>get()\<close> blocks: nothing changes.
\<close>

definition QueueHandler_run_iteration ::
  "('s \<Rightarrow> string \<Rightarrow> bool \<times> 's) \<Rightarrow> 's system \<Rightarrow> 's system" where
  "QueueHandler_run_iteration hI sys =
     (case queue sys of
        [] \<Rightarrow> sys
      | input # q \<Rightarrow>
          if input = ''eof'' then sys\<lparr>queue := q, consumer_running := False\<rparr>
          else (case hI (session sys) input of
                  (r, s) \<Rightarrow> sys\<lparr>queue := q, session := s, consumer_running := r,
                                consumed := consumed sys @ [input]\<rparr>))"

text \<open>
  The steps of a session, interleaved in any order. The receiver passes through its loop
  while the loop condition holds; when the condition fails or \<^verbatim>\<open>receiveFrame\<close> throws
  (both exceptions are caught, lines 276 and 294) it goes on to \<^verbatim>\<open>queue.clear()\<close>
  (line 298) and then to \<^verbatim>\<open>queue.put("eof")\<close> (line 299). The consumer passes through
  its loop whenever the queue is not empty. Each pass is one step: the queue operations are
  atomic, and a pass of the receiver makes at most one of them.
\<close>

inductive step ::
  "Kind \<Rightarrow> ('s \<Rightarrow> string \<Rightarrow> bool \<times> 's) \<Rightarrow> 's system \<Rightarrow> 's system \<Rightarrow> bool"
  for kind :: Kind and hI :: "'s \<Rightarrow> string \<Rightarrow> bool \<times> 's" where
  receive_more:
    "receiver_phase sys = Receiving \<Longrightarrow>
     handleRequest_iteration kind hI sys = (Continue, sys') \<Longrightarrow>
     step kind hI sys sys'"
| receive_end:
    "receiver_phase sys = Receiving \<Longrightarrow>
     handleRequest_iteration kind hI sys = (out, sys') \<Longrightarrow> out \<noteq> Continue \<Longrightarrow>
     step kind hI sys ((queue_clear sys')\<lparr>receiver_phase := Cleared\<rparr>)"
| put_eof:
    "receiver_phase sys = Cleared \<Longrightarrow>
     step kind hI sys ((queue_put ''eof'' sys)\<lparr>receiver_phase := Joining\<rparr>)"
| consume:
    "consumer_running sys \<Longrightarrow> queue sys \<noteq> [] \<Longrightarrow>
     step kind hI sys (QueueHandler_run_iteration hI sys)"

text \<open>
  A session starts with an empty queue and the receiver in its loop; the consumer thread
  is started for a ToClient session only (lines 211 to 215).
\<close>

definition initial :: "Kind \<Rightarrow> 's system \<Rightarrow> bool" where
  "initial kind sys \<longleftrightarrow>
     queue sys = [] \<and> calls sys = [] \<and> consumed sys = [] \<and> receiver_phase sys = Receiving
     \<and> consumer_running sys = (kind = ToClient)"

inductive reachable ::
  "Kind \<Rightarrow> ('s \<Rightarrow> string \<Rightarrow> bool \<times> 's) \<Rightarrow> 's system \<Rightarrow> bool"
  for kind :: Kind and hI :: "'s \<Rightarrow> string \<Rightarrow> bool \<times> 's" where
  start: "initial kind sys \<Longrightarrow> reachable kind hI sys"
| after: "reachable kind hI sys \<Longrightarrow> step kind hI sys sys' \<Longrightarrow> reachable kind hI sys'"

section \<open>The receiver of the child\<close>

text \<open>
  One pass through the \<^verbatim>\<open>do ... while\<close> of \<^verbatim>\<open>LOOLWSD::componentMain\<close> (lines 858 to
  885): the buffer has 1024 bytes, and the \<^verbatim>\<open>assert\<close> of line 869 (taken as compiled in)
  aborts the process when the first line is not the whole frame.
\<close>

definition componentMain_iteration ::
  "('s, 'z) receiver_scheme \<Rightarrow> outcome \<times> ('s, 'z) receiver_scheme" where
  "componentMain_iteration st =
     (case ws_receiveFrame 1024 st of
        (Inl e, st1) \<Rightarrow> (Throw e, st1)
      | (Inr (buffer, flags), st1) \<Rightarrow>
          if 0 < length buffer \<and> \<not> is_close flags then
            let firstLine = getFirstLine buffer;
                tokens = StringTokenizer firstLine
            in
              if length firstLine \<noteq> length buffer then (Abort, st1)
              else if length tokens = 1 \<and> tokens ! 0 = ''canceltiles'' then
                (Continue, queue_remove_if canceltiles_pred st1)
              else (Continue, queue_put firstLine st1)
          else (Finish, st1))"

text \<open>
  The invariant of a session's two threads that the proof of C7 carries through every
  step.
\<close>

definition session_inv :: "'s system \<Rightarrow> bool" where
  "session_inv sys \<longleftrightarrow>
     (receiver_phase sys = Cleared \<longrightarrow> queue sys = [] \<and> (\<exists>cs. calls sys = cs @ [Clear]))
     \<and> (receiver_phase sys = Joining \<longrightarrow>
          (\<exists>cs. calls sys = cs @ [Clear, Put ''eof''])
          \<and> (queue sys = [''eof''] \<or> (queue sys = [] \<and> \<not> consumer_running sys)))"

section \<open>Child identifiers\<close>

text \<open>
  \<^verbatim>\<open>_childId = (((Poco::UInt64)_rng.next()) << 32) | _rng.next() | 1;\<close> (lines 937 and
  1107). \<^verbatim>\<open>Poco::Random::next()\<close> returns a \<^verbatim>\<open>UInt32\<close>; \<open>r1\<close> is the draw that is widened
  and shifted, \<open>r2\<close> the other one, which C++ widens with zeros before the \<^verbatim>\<open>|\<close>.
\<close>

definition make_childId :: "32 word \<Rightarrow> 32 word \<Rightarrow> 64 word" where
  "make_childId r1 r2 = push_bit 32 (ucast r1 :: 64 word) OR (ucast r2 :: 64 word) OR 1"

section \<open>The reaper loop of the supervisor\<close>

text \<open>
  Modelled from the spec: the statics of \<^verbatim>\<open>MasterProcessSession\<close> are not in the sources.
  \<open>childProcesses\<close> is the table \<^verbatim>\<open>_childProcesses\<close> (pid to pid), \<open>pendingChildren\<close> the
  children forked but not yet connected (\<^verbatim>\<open>addPendingChildrem\<close> adds one,
  \<^verbatim>\<open>getPendingPreSpawnedChildren\<close> counts them), \<open>availableChildSessions\<close> the number
  \<^verbatim>\<open>getAvailableChildSessions\<close> returns. \<open>cout\<close> is what the process wrote to
  \<^verbatim>\<open>std::cout\<close>.
\<close>

record supervisor =
  childProcesses :: "int \<rightharpoonup> int"
  pendingChildren :: "int list"
  availableChildSessions :: nat
  cout :: "string list"

text \<open>
  The status macros of \<^verbatim>\<open>sys/wait.h\<close> (glibc): \<^verbatim>\<open>WTERMSIG(s) = s & 0x7f\<close>,
  \<^verbatim>\<open>WIFEXITED(s) = (WTERMSIG(s) == 0)\<close>,
  \<^verbatim>\<open>WIFSIGNALED(s) = (((signed char) ((s & 0x7f) + 1) >> 1) > 0)\<close>, which holds when the low
  seven bits are neither 0 nor \<^verbatim>\<open>0x7f\<close>.
\<close>

definition WTERMSIG :: "int \<Rightarrow> int" where
  "WTERMSIG status = status AND 0x7F"

definition WIFEXITED :: "int \<Rightarrow> bool" where
  "WIFEXITED status = (WTERMSIG status = 0)"

definition WIFSIGNALED :: "int \<Rightarrow> bool" where
  "WIFSIGNALED status = (WTERMSIG status \<noteq> 0 \<and> WTERMSIG status \<noteq> 0x7F)"

text \<open>
  \<^verbatim>\<open>Poco::Util::Application::EXIT_OK\<close> and \<^verbatim>\<open>EXIT_UNAVAILABLE\<close> (the values of
  \<^verbatim>\<open>sysexits.h\<close>).
\<close>

definition EXIT_OK :: int where
  "EXIT_OK = 0"

definition EXIT_UNAVAILABLE :: int where
  "EXIT_UNAVAILABLE = 69"

text \<open>
  \<^verbatim>\<open>LOOLWSD::createComponent\<close> (lines 903 to 922) as the parent sees it: \<open>forked\<close> is
  what \<^verbatim>\<open>fork()\<close> returned, \<open>-1\<close> or the pid of the new child (the child itself goes into
  \<^verbatim>\<open>componentMain\<close> and never returns from it).
\<close>

definition createComponent :: "int \<Rightarrow> supervisor \<Rightarrow> int \<times> supervisor" where
  "createComponent forked sv =
     (if forked = - 1 then (EXIT_UNAVAILABLE, sv\<lparr>cout := cout sv @ [''Fork failed.'']\<rparr>)
      else (EXIT_OK,
            sv\<lparr>pendingChildren := pendingChildren sv @ [forked],
                childProcesses := (childProcesses sv)(forked \<mapsto> forked)\<rparr>))"

text \<open>
  One pass through the body of the \<^verbatim>\<open>while\<close> of \<^verbatim>\<open>LOOLWSD::desktopMain\<close> (lines 1037
  to 1060). \<open>pid\<close> and \<open>status\<close> are what
  \<^verbatim>\<open>waitpid(-1, &status, WUNTRACED | WNOHANG)\<close> gave (\<open>status\<close> is whatever the variable
  holds when no child was reaped), \<open>forked\<close> what a \<^verbatim>\<open>fork()\<close> of this pass returns. The
  result says whether the pass left the loop by \<^verbatim>\<open>break\<close>. The message of lines 1041 to
  1048 (printed when \<^verbatim>\<open>waitpid\<close> fails with \<^verbatim>\<open>ECHILD\<close>) is left out: it changes nothing
  else.
\<close>

definition reaper_iteration :: "int \<Rightarrow> int \<Rightarrow> int \<Rightarrow> supervisor \<Rightarrow> bool \<times> supervisor" where
  "reaper_iteration pid status forked sv =
     (let sv1 =
        (if (WIFEXITED status \<or> WIFSIGNALED status \<or> WTERMSIG status \<noteq> 0)
            \<and> childProcesses sv pid \<noteq> None
         then sv\<lparr>cout := cout sv @ [''One of our known child processes died'']\<rparr>
         else sv)
      in
        if availableChildSessions sv1 = 0 \<and> length (pendingChildren sv1) = 0 then
          (case createComponent forked
                  (sv1\<lparr>cout := cout sv1 @ [''No availabe child session, fork new one'']\<rparr>) of
             (rc, sv2) \<Rightarrow> (rc < 0, sv2))
        else (False, sv1))"

text \<open>
  The loop itself, \<^verbatim>\<open>while (_childProcesses.size() > 0)\<close>, over the list of what the
  passes meet (the \<^verbatim>\<open>waitpid\<close> result and the \<^verbatim>\<open>fork\<close> result of each pass). It returns
  \<open>None\<close> when the list is used up while the loop is still running.
\<close>

fun reaper_loop :: "(int \<times> int \<times> int) list \<Rightarrow> supervisor \<Rightarrow> supervisor option" where
  "reaper_loop [] sv = (if childProcesses sv = Map.empty then Some sv else None)"
| "reaper_loop ((pid, status, forked) # rest) sv =
     (if childProcesses sv = Map.empty then Some sv
      else (case reaper_iteration pid status forked sv of
              (True, sv') \<Rightarrow> Some sv'
            | (False, sv') \<Rightarrow> reaper_loop rest sv'))"

section \<open>The file system\<close>

text \<open>
  The operating system and \<^verbatim>\<open>Poco::File\<close> are external. The model of the file system is
  small: a path is the list of its components from the root; directories carry their
  access and modification times; a regular file is a name for an inode, and inodes carry
  the bytes and the times (so a hard link is a second name for the same inode).
  \<open>unused\<close> is the next inode number not in use, \<open>clock\<close> the time a new directory is
  stamped with, and \<open>linkable\<close> says for which pairs of paths the system allows
  \<^verbatim>\<open>link(2)\<close> at all (the same file system, the permission to link). The root directory
  always exists.
\<close>

type_synonym path = "string list"

record filesystem =
  dirs :: "path \<rightharpoonup> int \<times> int"
  files :: "path \<rightharpoonup> nat"
  data :: "nat \<Rightarrow> string"
  ftimes :: "nat \<Rightarrow> int \<times> int"
  unused :: nat
  clock :: int
  linkable :: "path \<Rightarrow> path \<Rightarrow> bool"

definition is_dir :: "filesystem \<Rightarrow> path \<Rightarrow> bool" where
  "is_dir fs p = (p = [] \<or> dirs fs p \<noteq> None)"

text \<open>\<^verbatim>\<open>Poco::File::exists()\<close>.\<close>

definition exists_path :: "filesystem \<Rightarrow> path \<Rightarrow> bool" where
  "exists_path fs p = (is_dir fs p \<or> files fs p \<noteq> None)"

text \<open>The bytes of the regular file at a path.\<close>

definition contents :: "filesystem \<Rightarrow> path \<Rightarrow> string option" where
  "contents fs p = map_option (data fs) (files fs p)"

text \<open>
  A path string names the node reached from the root through its components, the
  non-empty pieces between slashes. The model does not tell a relative path from an
  absolute one and gives no meaning of their own to \<^verbatim>\<open>.\<close>, \<^verbatim>\<open>..\<close>, \<^verbatim>\<open>~\<close> or a slash at
  the end. \<open>Path_loop\<close> is the scan, with the component read so far.
\<close>

definition push_name :: "string \<Rightarrow> path" where
  "push_name name = (if name = [] then [] else [name])"

fun Path_loop :: "string \<Rightarrow> string \<Rightarrow> path" where
  "Path_loop name [] = push_name name"
| "Path_loop name (c # cs) =
     (if c = CHR ''/'' then push_name name @ Path_loop [] cs
      else Path_loop (name @ [c]) cs)"

definition Path :: "string \<Rightarrow> path" where
  "Path str = Path_loop [] str"

text \<open>\<^verbatim>\<open>Poco::Path::parent()\<close>.\<close>

definition parent :: "path \<Rightarrow> path" where
  "parent p = butlast p"

text \<open>
  \<^verbatim>\<open>mkdir(2)\<close> for a path that does not exist: it needs the parent directory. The text is
  what the exception \<^verbatim>\<open>Poco::File\<close> throws on the failure displays.
\<close>

definition mkdir :: "path \<Rightarrow> filesystem \<Rightarrow> string option \<times> filesystem" where
  "mkdir p fs =
     (if is_dir fs (parent p) then (None, fs\<lparr>dirs := (dirs fs)(p \<mapsto> (clock fs, clock fs))\<rparr>)
      else (Some ''Cannot create directory'', fs))"

text \<open>
  \<^verbatim>\<open>Poco::File::createDirectories()\<close>: nothing to do for a path that exists; otherwise
  the parent is created first, then the directory itself. The result holds the text of
  the exception, if one was thrown.
\<close>

function createDirectories :: "path \<Rightarrow> filesystem \<Rightarrow> string option \<times> filesystem" where
  "createDirectories p fs =
     (if exists_path fs p then (None, fs)
      else (case createDirectories (parent p) fs of
              (Some text, fs1) \<Rightarrow> (Some text, fs1)
            | (None, fs1) \<Rightarrow> mkdir p fs1))"
  by pat_completeness auto
termination
  by (relation "measure (\<lambda>(p, fs). length p)")
    (auto simp: exists_path_def is_dir_def parent_def)

text \<open>
  \<^verbatim>\<open>link(2)\<close>: a new name for the inode of a regular file. It fails (\<open>None\<close>, for \<open>-1\<close>)
  when the old path is not a regular file, when the new path exists, when the directory
  of the new path does not exist, and when the system does not allow the link
  (\<^verbatim>\<open>EXDEV\<close>, \<^verbatim>\<open>EPERM\<close>).
\<close>

definition link :: "path \<Rightarrow> path \<Rightarrow> filesystem \<Rightarrow> filesystem option" where
  "link oldpath newpath fs =
     (case files fs oldpath of
        None \<Rightarrow> None
      | Some inode \<Rightarrow>
          if exists_path fs newpath \<or> \<not> is_dir fs (parent newpath)
             \<or> \<not> linkable fs oldpath newpath
          then None
          else Some (fs\<lparr>files := (files fs)(newpath \<mapsto> inode)\<rparr>))"

text \<open>
  \<^verbatim>\<open>Poco::File::copyTo\<close>: a destination that is a directory stands for the file of the
  source's name in it. A regular file is copied byte for byte, into the inode of the
  destination if that exists (opened with truncation) and into a new inode otherwise.
  The copy of a directory (\<^verbatim>\<open>Poco::File::copyDirectory\<close>, a recursive copy) is left open:
  it is the parameter \<open>copyDirectory\<close>.
\<close>

definition copyTo ::
  "(path \<Rightarrow> path \<Rightarrow> filesystem \<Rightarrow> string option \<times> filesystem)
     \<Rightarrow> path \<Rightarrow> path \<Rightarrow> filesystem \<Rightarrow> string option \<times> filesystem" where
  "copyTo copyDirectory src dst fs =
     (let dest = (if is_dir fs dst \<and> src \<noteq> [] then dst @ [last src] else dst) in
        if is_dir fs src then copyDirectory src dest fs
        else
          (case files fs src of
             None \<Rightarrow> (Some ''File not found'', fs)
           | Some inode \<Rightarrow>
               if is_dir fs dest \<or> \<not> is_dir fs (parent dest) then (Some ''Cannot open file'', fs)
               else
                 (case files fs dest of
                    Some target \<Rightarrow>
                      (None, fs\<lparr>data := (data fs)
                                  (target := (if target = inode then [] else data fs inode))\<rparr>)
                  | None \<Rightarrow>
                      (None, fs\<lparr>files := (files fs)(dest \<mapsto> unused fs),
                                 data := (data fs)(unused fs := data fs inode),
                                 ftimes := (ftimes fs)(unused fs := (clock fs, clock fs)),
                                 unused := Suc (unused fs)\<rparr>))))"

text \<open>\<^verbatim>\<open>stat(2)\<close>, as far as the times go, and \<^verbatim>\<open>utime(2)\<close>.\<close>

definition stat :: "filesystem \<Rightarrow> path \<Rightarrow> (int \<times> int) option" where
  "stat fs p =
     (case dirs fs p of
        Some t \<Rightarrow> Some t
      | None \<Rightarrow>
          (case files fs p of
             Some inode \<Rightarrow> Some (ftimes fs inode)
           | None \<Rightarrow> if p = [] then Some (0, 0) else None))"

definition utime :: "path \<Rightarrow> int \<times> int \<Rightarrow> filesystem \<Rightarrow> filesystem option" where
  "utime p t fs =
     (if is_dir fs p then Some (fs\<lparr>dirs := (dirs fs)(p \<mapsto> t)\<rparr>)
      else (case files fs p of
              Some inode \<Rightarrow> Some (fs\<lparr>ftimes := (ftimes fs)(inode := t)\<rparr>)
            | None \<Rightarrow> None))"

section \<open>Replicating a template tree into a jail\<close>

text \<open>The type flags \<^verbatim>\<open>nftw\<close> passes to its callback (\<^verbatim>\<open>ftw.h\<close>).\<close>

datatype ftw_flag = FTW_F | FTW_D | FTW_DNR | FTW_NS | FTW_SL | FTW_DP | FTW_SLN

text \<open>
  How a call of the callback ends: it returns a number to \<^verbatim>\<open>nftw\<close>, it ends the process
  by \<^verbatim>\<open>exit\<close>, an \<^verbatim>\<open>assert\<close> fails, or an exception of \<^verbatim>\<open>Poco::File\<close> leaves it.
\<close>

datatype ending = Return int | Exit int | AssertionFailed | Raise string

text \<open>
  \<^verbatim>\<open>linkOrCopyFunction\<close> (lines 653 to 722), in the Linux build. \<open>source\<close> and
  \<open>destination\<close> are the two thread-local variables \<^verbatim>\<open>sourceForLinkOrCopy\<close> and
  \<^verbatim>\<open>destinationForLinkOrCopy\<close>. The messages the function logs are left out.
\<close>

definition linkOrCopyFunction ::
  "string \<Rightarrow> path \<Rightarrow> string \<Rightarrow> ftw_flag \<Rightarrow> filesystem \<Rightarrow> ending \<times> filesystem" where
  "linkOrCopyFunction source destination fpath typeflag fs =
     (if fpath = source then (Return 0, fs)
      else if \<not> (length source < length fpath \<and> fpath ! length source = CHR ''/'')
      then (AssertionFailed, fs)
      else
        let relativeOldPath = drop (length source + 1) fpath;
            newPath = destination @ Path relativeOldPath
        in
          (case typeflag of
             FTW_F \<Rightarrow>
               (case createDirectories (parent newPath) fs of
                  (Some text, fs1) \<Rightarrow> (Raise text, fs1)
                | (None, fs1) \<Rightarrow>
                    (case link (Path fpath) newPath fs1 of
                       None \<Rightarrow> (Exit 1, fs1)
                     | Some fs2 \<Rightarrow> (Return 0, fs2)))
           | FTW_DP \<Rightarrow>
               (case stat fs (Path fpath) of
                  None \<Rightarrow> (Return 1, fs)
                | Some st \<Rightarrow>
                    (case createDirectories newPath fs of
                       (Some text, fs1) \<Rightarrow> (Raise text, fs1)
                     | (None, fs1) \<Rightarrow>
                         (case utime newPath st fs1 of
                            None \<Rightarrow> (Return 1, fs1)
                          | Some fs2 \<Rightarrow> (Return 0, fs2))))
           | FTW_DNR \<Rightarrow> (Return 1, fs)
           | FTW_NS \<Rightarrow> (Return 1, fs)
           | FTW_SLN \<Rightarrow> (Return 0, fs)
           | FTW_D \<Rightarrow> (AssertionFailed, fs)
           | FTW_SL \<Rightarrow> (AssertionFailed, fs)))"

text \<open>
  \<^verbatim>\<open>nftw\<close> is external (libc). The walk is the list of the entries it visits, each with
  its path and type flag, in the order of \<^verbatim>\<open>FTW_DEPTH\<close>; \<^verbatim>\<open>nftw\<close> calls the callback on
  each and stops at the first call that does not return 0.
\<close>

fun nftw ::
  "(string \<Rightarrow> ftw_flag \<Rightarrow> filesystem \<Rightarrow> ending \<times> filesystem)
     \<Rightarrow> (string \<times> ftw_flag) list \<Rightarrow> filesystem \<Rightarrow> ending \<times> filesystem" where
  "nftw fn [] fs = (Return 0, fs)"
| "nftw fn ((fpath, typeflag) # walk) fs =
     (case fn fpath typeflag fs of
        (Return r, fs1) \<Rightarrow> if r = 0 then nftw fn walk fs1 else (Return r, fs1)
      | (e, fs1) \<Rightarrow> (e, fs1))"

text \<open>
  \<^verbatim>\<open>linkOrCopy\<close> (lines 724 to 733): a slash at the end of the source is dropped, then the
  tree is walked. The function returns nothing: what \<^verbatim>\<open>nftw\<close> returned is only logged.
\<close>

definition linkOrCopy ::
  "string \<Rightarrow> path \<Rightarrow> (string \<times> ftw_flag) list \<Rightarrow> filesystem \<Rightarrow> ending \<times> filesystem" where
  "linkOrCopy source destination walk fs =
     (let sourceForLinkOrCopy =
            (if source \<noteq> [] \<and> last source = CHR ''/'' then butlast source else source)
      in (case nftw (linkOrCopyFunction sourceForLinkOrCopy destination) walk fs of
            (Return r, fs1) \<Rightarrow> (Return 0, fs1)
          | (e, fs1) \<Rightarrow> (e, fs1)))"

section \<open>The file-transfer handler\<close>



section \<open>Basic facts\<close>

lemma remove_if_filter: "remove_if p xs = filter (\<lambda>x. \<not> p x) xs"
  by (induction xs) simp_all

lemma string_find_Some0: "string_find n h = Some 0 \<longleftrightarrow> prefix n h"
proof (cases h)
  case Nil
  then show ?thesis by auto
next
  case (Cons c cs)
  have "prefix n (c # cs) \<longleftrightarrow> take (length n) (c # cs) = n"
    by (metis append_eq_conv_conj prefix_def take_is_prefix)
  then show ?thesis using Cons by auto
qed

lemma string_find_None: "string_find n h = None \<longleftrightarrow> \<not> sublist n h"
proof (induction h)
  case Nil
  then show ?case by simp
next
  case (Cons c cs)
  have "sublist n (c # cs) \<longleftrightarrow> prefix n (c # cs) \<or> sublist n cs"
    by (simp add: sublist_Cons_right)
  moreover have "prefix n (c # cs) \<longleftrightarrow> take (length n) (c # cs) = n"
    by (metis append_eq_conv_conj prefix_def take_is_prefix)
  ultimately show ?case using Cons by auto
qed

lemma canceltiles_pred_iff:
  "canceltiles_pred x \<longleftrightarrow> prefix ''tile '' x \<and> \<not> sublist ''id='' x"
  by (simp add: canceltiles_pred_def string_find_Some0 string_find_None)

lemmas tokenizer_defs = StringTokenizer_def push_token_def trim_def isSpace_def

lemmas receiver_defs = handleRequest_iteration_def ws_receiveFrame_def
  session_handleInput_def queue_put_def queue_remove_if_def Let_def

lemma tile_first_token: "prefix ''tile '' x \<Longrightarrow> hd (StringTokenizer x) = ''tile''"
  by (auto simp: prefix_def tokenizer_defs)

section \<open>C1: what a canceltiles frame removes from the queue\<close>

text \<open>
  C1, as the code has it. On a ToClient session, a one-line frame whose only token is
  \<^verbatim>\<open>canceltiles\<close> leaves in the queue, in their order, exactly the elements that do not
  both begin with the five characters \<^verbatim>\<open>tile \<close> and lack the substring \<^verbatim>\<open>id=\<close>. Every
  element it drops has \<^verbatim>\<open>tile\<close> as its first token and no \<^verbatim>\<open>id=\<close>; so every element
  with \<^verbatim>\<open>id=\<close> and every element whose first token is not \<^verbatim>\<open>tile\<close> stays.
\<close>

theorem canceltiles_removes_tile_prefixed_without_id:
  assumes "ws st = Frame buffer flags # rest"
    and "0 < length buffer" and "length buffer \<le> 100000" and "\<not> is_close flags"
    and "length (getFirstLine buffer) = length buffer"
    and "StringTokenizer (getFirstLine buffer) = [''canceltiles'']"
  shows "queue (snd (handleRequest_iteration ToClient hI st))
           = filter (\<lambda>x. \<not> (prefix ''tile '' x \<and> \<not> sublist ''id='' x)) (queue st)
         \<and> (\<forall>x \<in> set (queue st).
               x \<notin> set (queue (snd (handleRequest_iteration ToClient hI st)))
               \<longrightarrow> hd (StringTokenizer x) = ''tile'' \<and> \<not> sublist ''id='' x)"
proof -
  have q: "queue (snd (handleRequest_iteration ToClient hI st))
             = remove_if canceltiles_pred (queue st)"
    using assms by (simp add: receiver_defs split: prod.splits)
  have f: "remove_if canceltiles_pred (queue st)
             = filter (\<lambda>x. \<not> (prefix ''tile '' x \<and> \<not> sublist ''id='' x)) (queue st)"
    by (simp add: remove_if_filter canceltiles_pred_iff)
  show ?thesis
    unfolding q f using tile_first_token by auto
qed

text \<open>
  The theorem at a queue of four elements: the two tile requests without \<^verbatim>\<open>id=\<close> go, the
  tile request with \<^verbatim>\<open>id=7\<close> and the key event stay, in their order.
\<close>

theorem canceltiles_removes_tile_prefixed_without_id_witness:
  "queue (snd (handleRequest_iteration ToClient (\<lambda>s b. (True, s))
      \<lparr>ws = [Frame ''canceltiles'' 0x81],
       queue = [''tile part=0 x=0'', ''tile part=0 id=7'', ''key type=input'', ''tile part=1''],
       session = (), calls = []\<rparr>))
   = [''tile part=0 id=7'', ''key type=input'']"
  using canceltiles_removes_tile_prefixed_without_id
    [of "\<lparr>ws = [Frame ''canceltiles'' 0x81],
          queue = [''tile part=0 x=0'', ''tile part=0 id=7'', ''key type=input'', ''tile part=1''],
          session = (), calls = []\<rparr>"
        "''canceltiles''" "0x81" "[]" "\<lambda>s b. (True, s)"]
  by (simp add: tokenizer_defs getFirstLine_def is_close_def string_find_None [symmetric])

text \<open>
  C1 as the spec states it fails. The queued element \<^verbatim>\<open>tile\<close> has the first token
  \<^verbatim>\<open>tile\<close> and no \<^verbatim>\<open>id=\<close>, yet it does not begin with \<^verbatim>\<open>tile \<close> (with the space), so
  canceltiles leaves it in the queue.
\<close>

theorem canceltiles_keeps_bare_tile_counterexample:
  "hd (StringTokenizer ''tile'') = ''tile''
   \<and> \<not> sublist ''id='' (getFirstLine ''tile'')
   \<and> queue (snd (handleRequest_iteration ToClient (\<lambda>s b. (True, s))
        \<lparr>ws = [Frame ''canceltiles'' 0x81], queue = [''tile''], session = (), calls = []\<rparr>))
      = [''tile'']"
  by (simp add: receiver_defs tokenizer_defs getFirstLine_def is_close_def
      canceltiles_pred_def string_find_None [symmetric])

section \<open>Facts about one pass of a receiver\<close>

lemma getFirstLine_one: "CHR 0x0A \<notin> set b \<Longrightarrow> getFirstLine b = b"
  by (auto simp: getFirstLine_def)

lemma takeWhile_length_all: "length (takeWhile P b) = length b \<Longrightarrow> takeWhile P b = b"
  by (metis takeWhile_eq_take take_all le_refl)

lemma getFirstLine_whole: "length (getFirstLine b) = length b \<longleftrightarrow> CHR 0x0A \<notin> set b"
proof
  assume "length (getFirstLine b) = length b"
  then have "takeWhile (\<lambda>c. c \<noteq> CHR 0x0A) b = b"
    unfolding getFirstLine_def by (rule takeWhile_length_all)
  then have "\<forall>c\<in>set b. c \<noteq> CHR 0x0A"
    by (simp only: takeWhile_eq_all_conv)
  then show "CHR 0x0A \<notin> set b" by blast
next
  assume "CHR 0x0A \<notin> set b"
  then show "length (getFirstLine b) = length b"
    by (simp add: getFirstLine_one)
qed

lemma receive_frame:
  assumes "ws st = Frame buffer flags # rest" and "length buffer \<le> len"
  shows "ws_receiveFrame len st = (Inr (buffer, flags), st\<lparr>ws := rest, calls := calls st @ [ReceiveFrame len]\<rparr>)"
  using assms by (simp add: ws_receiveFrame_def)

lemma multi_line_iteration:
  assumes "ws st = Frame buffer flags # rest"
    and "0 < length buffer" and "length buffer \<le> 100000" and "\<not> is_close flags"
    and "length (getFirstLine buffer) \<noteq> length buffer"
  shows "handleRequest_iteration kind hI st =
     (case nextmessage_size (StringTokenizer (getFirstLine buffer)) of
        Some sz \<Rightarrow>
          (case ws_receiveFrame (nat sz) (st\<lparr>ws := rest, calls := calls st @ [ReceiveFrame 100000]\<rparr>) of
             (Inl e, st2) \<Rightarrow> (Throw e, st2)
           | (Inr (largeBuffer, flags2), st2) \<Rightarrow>
               if 0 < length largeBuffer \<and> \<not> is_close flags2 then
                 (case session_handleInput hI largeBuffer st2 of
                    (r, st3) \<Rightarrow> (if r then Continue else Finish, st3))
               else (Finish, st2))
      | None \<Rightarrow>
          (case session_handleInput hI buffer (st\<lparr>ws := rest, calls := calls st @ [ReceiveFrame 100000]\<rparr>) of
             (r, st2) \<Rightarrow> (if r then Continue else Finish, st2)))"
  unfolding handleRequest_iteration_def receive_frame [OF assms(1) assms(3)]
  using assms(2,4,5) by (simp add: Let_def)

lemma one_line_iteration:
  assumes "ws st = Frame buffer flags # rest"
    and "0 < length buffer" and "length buffer \<le> 100000" and "\<not> is_close flags"
    and "length (getFirstLine buffer) = length buffer"
  shows "handleRequest_iteration ToClient hI st =
     (if length (StringTokenizer (getFirstLine buffer)) = 1
         \<and> StringTokenizer (getFirstLine buffer) ! 0 = ''canceltiles''
      then (Continue, snd (session_handleInput hI buffer
              (queue_remove_if canceltiles_pred
                 (st\<lparr>ws := rest, calls := calls st @ [ReceiveFrame 100000]\<rparr>))))
      else (Continue, queue_put (getFirstLine buffer)
              (st\<lparr>ws := rest, calls := calls st @ [ReceiveFrame 100000]\<rparr>)))"
  unfolding handleRequest_iteration_def receive_frame [OF assms(1) assms(3)]
  using assms(2,4,5) by (simp add: Let_def)

lemma iteration_keeps_threads:
  "handleRequest_iteration kind hI sys = (out, sys') \<Longrightarrow>
     receiver_phase sys' = receiver_phase sys \<and> consumer_running sys' = consumer_running sys
     \<and> consumed sys' = consumed sys"
  by (auto simp: receiver_defs split: prod.splits sum.splits if_splits option.splits)

section \<open>C2: the nextmessage escape\<close>




section \<open>C4: canceltiles goes to handleInput at once\<close>

text \<open>
  C4. On a ToClient session, a frame whose first line has the single token
  \<^verbatim>\<open>canceltiles\<close> is handed to \<^verbatim>\<open>handleInput\<close> by the receiver itself, as received, and
  is never put on the queue: the receiver's calls are the \<^verbatim>\<open>receiveFrame\<close>, the
  \<^verbatim>\<open>remove_if\<close> (for a one-line frame) and the \<^verbatim>\<open>handleInput\<close>. On an empty queue the
  removal changes nothing and the \<^verbatim>\<open>handleInput\<close> still happens. (What
  \<^verbatim>\<open>MasterProcessSession::handleInput\<close> does with the frame is outside this file.)
\<close>

theorem canceltiles_goes_to_handleInput:
  assumes "ws st = Frame buffer flags # rest"
    and "0 < length buffer" and "length buffer \<le> 100000" and "\<not> is_close flags"
    and "StringTokenizer (getFirstLine buffer) = [''canceltiles'']"
  shows "handleRequest_iteration ToClient hI st =
           (if length (getFirstLine buffer) = length buffer \<or> fst (hI (session st) buffer)
            then Continue else Finish,
            st\<lparr>ws := rest,
               queue := (if length (getFirstLine buffer) = length buffer
                         then remove_if canceltiles_pred (queue st) else queue st),
               session := snd (hI (session st) buffer),
               calls := calls st @ [ReceiveFrame 100000]
                  @ (if length (getFirstLine buffer) = length buffer then [RemoveIf] else [])
                  @ [HandleInput buffer]\<rparr>)
         \<and> (queue st = [] \<longrightarrow> queue (snd (handleRequest_iteration ToClient hI st)) = [])"
  using assms by (auto simp: receiver_defs nextmessage_size_def split: prod.splits)

text \<open>The theorem on an empty queue.\<close>

theorem canceltiles_goes_to_handleInput_witness:
  "handleRequest_iteration ToClient (\<lambda>s b. (True, s @ [b]))
     \<lparr>ws = [Frame ''canceltiles'' 0x81], queue = [], session = [], calls = []\<rparr>
   = (Continue, \<lparr>ws = [], queue = [], session = [''canceltiles''],
        calls = [ReceiveFrame 100000, RemoveIf, HandleInput ''canceltiles'']\<rparr>)"
  using canceltiles_goes_to_handleInput
    [of "\<lparr>ws = [Frame ''canceltiles'' 0x81], queue = [], session = [], calls = []\<rparr>"
        "''canceltiles''" "0x81" "[]" "\<lambda>s b. (True, s @ [b])"]
  by (simp add: tokenizer_defs getFirstLine_def is_close_def)

section \<open>C9: only one-line frames reach the queue\<close>

text \<open>
  C9. On a ToClient session, let \<open>new\<close> be the calls one pass of the receiver adds for a
  frame it received. A frame of one line is either the canceltiles fast path (the
  removal, then \<^verbatim>\<open>handleInput\<close>) or is put on the queue. A frame of more than one line
  leaves the queue as it is: the receiver handles it itself, either by \<^verbatim>\<open>handleInput\<close> on
  the frame or, after the nextmessage check, by reading the follow-up frame (and handing
  that to \<^verbatim>\<open>handleInput\<close>); no queue operation is among its calls.
\<close>

theorem queue_only_for_one_line_frames:
  assumes "ws st = Frame buffer flags # rest"
    and "0 < length buffer" and "length buffer \<le> 100000" and "\<not> is_close flags"
    and "st' = snd (handleRequest_iteration ToClient hI st)"
    and "new = drop (length (calls st)) (calls st')"
  shows "(length (getFirstLine buffer) = length buffer \<longrightarrow>
            (new = [ReceiveFrame 100000, RemoveIf, HandleInput buffer]
               \<and> queue st' = remove_if canceltiles_pred (queue st))
            \<or> (new = [ReceiveFrame 100000, Put buffer] \<and> queue st' = queue st @ [buffer]))
         \<and> (length (getFirstLine buffer) \<noteq> length buffer \<longrightarrow>
              queue st' = queue st
              \<and> (new = [ReceiveFrame 100000, HandleInput buffer]
                  \<or> (\<exists>N. nextmessage_size (StringTokenizer (getFirstLine buffer)) = Some N
                       \<and> (new = [ReceiveFrame 100000, ReceiveFrame (nat N)]
                           \<or> (\<exists>m. new = [ReceiveFrame 100000, ReceiveFrame (nat N),
                                          HandleInput m])))))"
proof (cases "length (getFirstLine buffer) = length buffer")
  case True
  then have b: "getFirstLine buffer = buffer"
    by (simp add: getFirstLine_whole getFirstLine_one)
  show ?thesis
    using True assms(5,6)
    unfolding one_line_iteration [OF assms(1-4) True] b
    by (simp add: session_handleInput_def queue_remove_if_def queue_put_def split: prod.splits)
next
  case False
  show ?thesis
  proof (cases "nextmessage_size (StringTokenizer (getFirstLine buffer))")
    case None
    then show ?thesis
      using False assms(5,6)
      unfolding multi_line_iteration [OF assms(1-4) False]
      by (simp add: session_handleInput_def split: prod.splits)
  next
    case (Some N)
    obtain r es where rf: "receiveFrame rest (nat N) = (r, es)" by (cases "receiveFrame rest (nat N)")
    show ?thesis
    proof (cases r)
      case (Inl e)
      then show ?thesis
        using False assms(5,6) Some rf
        unfolding multi_line_iteration [OF assms(1-4) False]
        by (simp add: ws_receiveFrame_def)
    next
      case (Inr pf)
      obtain p f where pf: "pf = (p, f)" by (cases pf)
      show ?thesis
        using False assms(5,6) Some rf Inr pf
        unfolding multi_line_iteration [OF assms(1-4) False]
        by (simp add: ws_receiveFrame_def session_handleInput_def split: prod.splits)
    qed
  qed
qed

text \<open>
  The theorem at a frame of two lines, received while a tile request waits in the queue:
  the frame is handled at once, before the queued request.
\<close>

theorem queue_only_for_one_line_frames_witness:
  "queue (snd (handleRequest_iteration ToClient (\<lambda>s b. (True, s @ [b]))
      \<lparr>ws = [Frame (''paste'' @ [CHR 0x0A] @ ''abc'') 0x81], queue = [''tile part=0''],
       session = [], calls = []\<rparr>)) = [''tile part=0'']
   \<and> calls (snd (handleRequest_iteration ToClient (\<lambda>s b. (True, s @ [b]))
      \<lparr>ws = [Frame (''paste'' @ [CHR 0x0A] @ ''abc'') 0x81], queue = [''tile part=0''],
       session = [], calls = []\<rparr>))
     = [ReceiveFrame 100000, HandleInput (''paste'' @ [CHR 0x0A] @ ''abc'')]"
  using queue_only_for_one_line_frames
    [of "\<lparr>ws = [Frame (''paste'' @ [CHR 0x0A] @ ''abc'') 0x81], queue = [''tile part=0''],
          session = [], calls = []\<rparr>"
        "''paste'' @ [CHR 0x0A] @ ''abc''" "0x81" "[]" _ "\<lambda>s b. (True, s @ [b])", OF _ _ _ _ refl refl]
  by (simp add: tokenizer_defs getFirstLine_def is_close_def nextmessage_size_def)

section \<open>C10: the child's receiver\<close>

text \<open>
  C10. The child reads every frame into a buffer of 1024 bytes. For a frame that is not
  empty and not a close: the pass goes on to the queue exactly when the frame has at most
  1024 bytes and no line feed; the assertion of line 869 fails exactly when it has at
  most 1024 bytes and a line feed; and \<^verbatim>\<open>receiveFrame\<close> throws exactly when it has more
  than 1024 bytes. So the receiver is sound only for a master that sends the child
  one-line frames of at most 1024 bytes.
\<close>

theorem child_frames_must_be_one_line_of_1024:
  assumes "ws st = Frame buffer flags # rest"
    and "0 < length buffer" and "\<not> is_close flags"
  shows "(\<exists>more. calls (snd (componentMain_iteration st)) = calls st @ ReceiveFrame 1024 # more)
         \<and> (fst (componentMain_iteration st) = Continue
              \<longleftrightarrow> length buffer \<le> 1024 \<and> CHR 0x0A \<notin> set buffer)
         \<and> (fst (componentMain_iteration st) = Abort
              \<longleftrightarrow> length buffer \<le> 1024 \<and> CHR 0x0A \<in> set buffer)
         \<and> (fst (componentMain_iteration st) = Throw WebSocketException
              \<longleftrightarrow> 1024 < length buffer)"
proof (cases "length buffer \<le> 1024")
  case True
  show ?thesis
    using assms(2,3) True
    unfolding componentMain_iteration_def receive_frame [OF assms(1) True]
    by (simp add: Let_def getFirstLine_whole queue_remove_if_def queue_put_def)
next
  case False
  then show ?thesis using assms
    by (simp add: componentMain_iteration_def ws_receiveFrame_def)
qed

text \<open>The theorem at a frame of two lines, at a frame of 1025 bytes and at a tile request.\<close>

theorem child_frames_must_be_one_line_of_1024_witness:
  "fst (componentMain_iteration
      \<lparr>ws = [Frame (''paste'' @ [CHR 0x0A] @ ''abc'') 0x81], queue = [], session = (), calls = []\<rparr>)
     = Abort
   \<and> fst (componentMain_iteration
      \<lparr>ws = [Frame (replicate 1025 CHR ''a'') 0x81], queue = [], session = (), calls = []\<rparr>)
     = Throw WebSocketException
   \<and> fst (componentMain_iteration
      \<lparr>ws = [Frame ''tile part=0'' 0x81], queue = [], session = (), calls = []\<rparr>)
     = Continue"
  using child_frames_must_be_one_line_of_1024
    [of "\<lparr>ws = [Frame (''paste'' @ [CHR 0x0A] @ ''abc'') 0x81], queue = [], session = (), calls = []\<rparr>"
        "''paste'' @ [CHR 0x0A] @ ''abc''" "0x81" "[]"]
    child_frames_must_be_one_line_of_1024
    [of "\<lparr>ws = [Frame (replicate 1025 CHR ''a'') 0x81], queue = [], session = (), calls = []\<rparr>"
        "replicate 1025 CHR ''a''" "0x81" "[]"]
    child_frames_must_be_one_line_of_1024
    [of "\<lparr>ws = [Frame ''tile part=0'' 0x81], queue = [], session = (), calls = []\<rparr>"
        "''tile part=0''" "0x81" "[]"]
  by (simp add: is_close_def)

section \<open>C7: the queue of a closed session\<close>

text \<open>
  The invariant of the two threads: after \<^verbatim>\<open>queue.clear()\<close> the queue is empty (the
  consumer only takes elements), and after \<^verbatim>\<open>queue.put("eof")\<close> the queue holds exactly
  \<^verbatim>\<open>"eof"\<close> until the consumer takes it and stops.
\<close>

lemma step_inv: "step kind hI sys sys' \<Longrightarrow> session_inv sys \<Longrightarrow> session_inv sys'"
proof (induction rule: step.induct)
  case (receive_more sys sys')
  then show ?case using iteration_keeps_threads[of kind hI sys Continue sys']
    by (auto simp: session_inv_def)
next
  case (receive_end sys out sys')
  then show ?case by (simp add: session_inv_def queue_clear_def)
next
  case (put_eof sys)
  then show ?case by (auto simp: session_inv_def queue_put_def)
next
  case (consume sys)
  then show ?case
    by (cases "queue sys") (auto simp: session_inv_def QueueHandler_run_iteration_def split: prod.splits)
qed

lemma reachable_inv: "reachable kind hI sys \<Longrightarrow> session_inv sys"
proof (induction rule: reachable.induct)
  case (start sys)
  then show ?case by (simp add: initial_def session_inv_def)
next
  case (after sys sys')
  then show ?case using step_inv by blast
qed

text \<open>
  C7. In every state a session can reach: once the receiver has left its loop (by a
  close, an empty read, a \<^verbatim>\<open>handleInput\<close> that returned false or an exception of the
  socket) and stands in \<^verbatim>\<open>join()\<close>, its last two calls were \<^verbatim>\<open>clear()\<close> and
  \<^verbatim>\<open>put("eof")\<close>, and a consumer that is still running finds exactly \<^verbatim>\<open>"eof"\<close> in the
  queue, takes it and stops without calling \<^verbatim>\<open>handleInput\<close>. And in every state, a
  consumer that takes an element for which \<^verbatim>\<open>handleInput\<close> returns false stops with it.
\<close>

theorem closed_session_queue_is_eof:
  assumes "reachable kind hI sys"
  shows "(receiver_phase sys = Joining \<longrightarrow>
            (\<exists>cs. calls sys = cs @ [Clear, Put ''eof''])
            \<and> (consumer_running sys \<longrightarrow>
                 queue sys = [''eof'']
                 \<and> \<not> consumer_running (QueueHandler_run_iteration hI sys)
                 \<and> consumed (QueueHandler_run_iteration hI sys) = consumed sys))
         \<and> (\<forall>input q. queue sys = input # q \<and> input \<noteq> ''eof'' \<and> \<not> fst (hI (session sys) input)
               \<longrightarrow> \<not> consumer_running (QueueHandler_run_iteration hI sys)
                   \<and> consumed (QueueHandler_run_iteration hI sys) = consumed sys @ [input]
                   \<and> queue (QueueHandler_run_iteration hI sys) = q)"
proof -
  have inv: "session_inv sys" using assms by (rule reachable_inv)
  have a: "receiver_phase sys = Joining \<longrightarrow>
            (\<exists>cs. calls sys = cs @ [Clear, Put ''eof''])
            \<and> (consumer_running sys \<longrightarrow>
                 queue sys = [''eof'']
                 \<and> \<not> consumer_running (QueueHandler_run_iteration hI sys)
                 \<and> consumed (QueueHandler_run_iteration hI sys) = consumed sys)"
    using inv by (auto simp: session_inv_def QueueHandler_run_iteration_def)
  have b: "\<forall>input q. queue sys = input # q \<and> input \<noteq> ''eof'' \<and> \<not> fst (hI (session sys) input)
               \<longrightarrow> \<not> consumer_running (QueueHandler_run_iteration hI sys)
                   \<and> consumed (QueueHandler_run_iteration hI sys) = consumed sys @ [input]
                   \<and> queue (QueueHandler_run_iteration hI sys) = q"
    by (auto simp: QueueHandler_run_iteration_def split: prod.splits)
  from a b show ?thesis by blast
qed

text \<open>
  The theorem after a run of the receiver: a key event is queued, the close frame ends
  the loop, \<^verbatim>\<open>clear()\<close> drops the key event and \<^verbatim>\<open>put("eof")\<close> leaves the sentinel alone.
\<close>

theorem closed_session_queue_is_eof_witness:
  "queue (\<lparr>ws = [], queue = [''eof''], session = (),
      calls = [ReceiveFrame 100000, Put ''key type=input'', ReceiveFrame 100000, Clear, Put ''eof''],
      receiver_phase = Joining, consumer_running = True, consumed = []\<rparr>) = [''eof'']
   \<and> \<not> consumer_running (QueueHandler_run_iteration (\<lambda>s b. (True, s))
       \<lparr>ws = [], queue = [''eof''], session = (),
        calls = [ReceiveFrame 100000, Put ''key type=input'', ReceiveFrame 100000, Clear, Put ''eof''],
        receiver_phase = Joining, consumer_running = True, consumed = []\<rparr>)"
proof -
  let ?h = "\<lambda>(s::unit) (b::string). (True, s)"
  let ?s0 = "\<lparr>ws = [Frame ''key type=input'' 0x81, Frame [] 0x88], queue = [], session = (),
      calls = [], receiver_phase = Receiving, consumer_running = True, consumed = []\<rparr>"
  let ?s1 = "\<lparr>ws = [Frame [] 0x88], queue = [''key type=input''], session = (),
      calls = [ReceiveFrame 100000, Put ''key type=input''],
      receiver_phase = Receiving, consumer_running = True, consumed = []\<rparr>"
  let ?s2 = "\<lparr>ws = [], queue = [], session = (),
      calls = [ReceiveFrame 100000, Put ''key type=input'', ReceiveFrame 100000, Clear],
      receiver_phase = Cleared, consumer_running = True, consumed = []\<rparr>"
  let ?s3 = "\<lparr>ws = [], queue = [''eof''], session = (),
      calls = [ReceiveFrame 100000, Put ''key type=input'', ReceiveFrame 100000, Clear, Put ''eof''],
      receiver_phase = Joining, consumer_running = True, consumed = []\<rparr>"
  have r0: "reachable ToClient ?h ?s0"
    by (rule reachable.start) (simp add: initial_def)
  have "step ToClient ?h ?s0 ?s1"
    by (rule step.receive_more)
      (simp_all add: receiver_defs tokenizer_defs getFirstLine_def is_close_def)
  with r0 have r1: "reachable ToClient ?h ?s1" by (rule reachable.after)
  have "step ToClient ?h ?s1 ?s2"
    using step.receive_end [of ?s1 ToClient ?h Finish
        "\<lparr>ws = [], queue = [''key type=input''], session = (),
          calls = [ReceiveFrame 100000, Put ''key type=input'', ReceiveFrame 100000],
          receiver_phase = Receiving, consumer_running = True, consumed = []\<rparr>"]
    by (simp add: receiver_defs queue_clear_def)
  with r1 have r2: "reachable ToClient ?h ?s2" by (rule reachable.after)
  have "step ToClient ?h ?s2 ?s3"
    using step.put_eof [of ?s2 ToClient ?h] by (simp add: queue_put_def)
  with r2 have r3: "reachable ToClient ?h ?s3" by (rule reachable.after)
  show ?thesis
    using closed_session_queue_is_eof [OF r3] by simp
qed

section \<open>C6: child identifiers are odd\<close>


lemma childId_example: "make_childId 0 0 = 1 \<and> make_childId 0xFFFFFFFF 0xFFFFFFFE = 0xFFFFFFFFFFFFFFFF"
  by (simp add: make_childId_def)

section \<open>C5: the reaper loop\<close>

text \<open>
  A pass of the reaper loop never takes an entry out of the child table, and it never
  leaves the loop by \<^verbatim>\<open>break\<close> (\<^verbatim>\<open>createComponent\<close> returns 0 or 69, never a negative
  number). So the loop, once the table holds a child, does not end.
\<close>

lemma reaper_iteration_keeps_table:
  "childProcesses sv p = Some q \<Longrightarrow>
   childProcesses (snd (reaper_iteration pid status forked sv)) p \<noteq> None"
  by (auto simp: reaper_iteration_def createComponent_def Let_def split: if_splits)

lemma reaper_iteration_never_breaks:
  "\<not> fst (reaper_iteration pid status forked sv)"
  by (auto simp: reaper_iteration_def createComponent_def Let_def EXIT_OK_def EXIT_UNAVAILABLE_def)

lemma reaper_loop_never_ends:
  "childProcesses sv \<noteq> Map.empty \<Longrightarrow> reaper_loop inputs sv = None"
proof (induction inputs arbitrary: sv)
  case Nil
  then show ?case by simp
next
  case (Cons i inputs)
  obtain pid status forked where i: "i = (pid, status, forked)" by (cases i)
  obtain b sv' where r: "reaper_iteration pid status forked sv = (b, sv')"
    by (cases "reaper_iteration pid status forked sv")
  have nb: "\<not> b" using reaper_iteration_never_breaks [of pid status forked sv] r by simp
  from Cons.prems obtain p q where "childProcesses sv p = Some q" by fastforce
  then have "childProcesses sv' p \<noteq> None"
    using reaper_iteration_keeps_table [of sv p q pid status forked] r by simp
  then have "childProcesses sv' \<noteq> Map.empty" by auto
  then have "reaper_loop inputs sv' = None" by (rule Cons.IH)
  then show ?case using Cons.prems i r nb by simp
qed

text \<open>
  C5 fails on the code where it says that the entry of a known child that exits is
  removed. With the table holding the child 42, \<^verbatim>\<open>waitpid\<close> returning 42 with the status
  of a normal exit, and a child session available: the pass prints its message and
  leaves 42 in the table.
\<close>

theorem reaper_keeps_dead_child:
  "snd (reaper_iteration 42 0 0
      \<lparr>childProcesses = [42 \<mapsto> 42], pendingChildren = [], availableChildSessions = 1, cout = []\<rparr>)
   = \<lparr>childProcesses = [42 \<mapsto> 42], pendingChildren = [], availableChildSessions = 1,
      cout = [''One of our known child processes died'']\<rparr>"
  by (simp add: reaper_iteration_def WIFEXITED_def WTERMSIG_def)

section \<open>Facts about the file system\<close>

declare createDirectories.simps [simp del]

lemmas path_defs = Path_def push_name_def parent_def

lemmas fs_defs = exists_path_def is_dir_def link_def copyTo_def mkdir_def contents_def

lemma mkdir_frame:
  "mkdir p fs = (r, fs') \<Longrightarrow>
     files fs' = files fs \<and> data fs' = data fs \<and> ftimes fs' = ftimes fs \<and> unused fs' = unused fs
     \<and> clock fs' = clock fs \<and> linkable fs' = linkable fs"
  by (auto simp: mkdir_def split: if_splits)

lemma createDirectories_frame:
  "createDirectories p fs = (r, fs') \<Longrightarrow>
     files fs' = files fs \<and> data fs' = data fs \<and> ftimes fs' = ftimes fs \<and> unused fs' = unused fs
     \<and> clock fs' = clock fs \<and> linkable fs' = linkable fs"
proof (induction p fs arbitrary: r fs' rule: createDirectories.induct)
  case (1 p fs)
  show ?case
  proof (cases "exists_path fs p")
    case True
    then show ?thesis using "1.prems" by (simp add: createDirectories.simps)
  next
    case False
    obtain r1 fs1 where c: "createDirectories (parent p) fs = (r1, fs1)"
      by (cases "createDirectories (parent p) fs")
    have ih: "files fs1 = files fs \<and> data fs1 = data fs \<and> ftimes fs1 = ftimes fs \<and> unused fs1 = unused fs
     \<and> clock fs1 = clock fs \<and> linkable fs1 = linkable fs"
      using "1.IH" [OF False c] .
    show ?thesis
    proof (cases r1)
      case None
      then have "mkdir p fs1 = (r, fs')"
        using "1.prems" False c by (simp add: createDirectories.simps [of p fs])
      then show ?thesis using mkdir_frame ih by metis
    next
      case (Some msg)
      then have "fs' = fs1"
        using "1.prems" False c by (simp add: createDirectories.simps [of p fs])
      then show ?thesis using ih by simp
    qed
  qed
qed





lemma link_frame:
  "link p q fs = Some fs' \<Longrightarrow>
     files fs' q = files fs p \<and> files fs p \<noteq> None \<and> files fs q = None
     \<and> data fs' = data fs \<and> dirs fs' = dirs fs
     \<and> (\<forall>x. x \<noteq> q \<longrightarrow> files fs' x = files fs x)"
  by (auto simp: link_def exists_path_def split: option.splits if_splits)

lemma nftw_append:
  "nftw fn walk fs = (Return 0, fs1) \<Longrightarrow> nftw fn (walk @ rest) fs = nftw fn rest fs1"
proof (induction walk arbitrary: fs)
  case Nil
  then show ?case by simp
next
  case (Cons v walk)
  obtain fpath typeflag where v: "v = (fpath, typeflag)" by (cases v)
  obtain e fs2 where f: "fn fpath typeflag fs = (e, fs2)" by (cases "fn fpath typeflag fs")
  show ?case
  proof (cases e)
    case (Return r)
    then show ?thesis using Cons v f by (cases "r = 0") simp_all
  qed (use Cons.prems v f in simp_all)
qed

section \<open>C3: a regular file of the template tree\<close>

text \<open>
  C3, as the code has it. For a regular file below the source (\<^verbatim>\<open>FTW_F\<close>), once the
  directory of the destination is there, the callback tries the hard link. If the link
  succeeds, the callback returns 0 and the destination is a second name of the source's
  inode, with the source's bytes. If the link fails, the callback ends the process with
  \<^verbatim>\<open>exit(1)\<close>: no file and no byte has changed, nothing is copied, and the walk that was
  under way ends there.
\<close>

theorem linkOrCopyFunction_links_or_exits:
  assumes "fpath = source @ ''/'' @ relativeOldPath"
    and "newPath = destination @ Path relativeOldPath"
    and "createDirectories (parent newPath) fs = (None, fs1)"
  shows "(\<forall>fs2. link (Path fpath) newPath fs1 = Some fs2 \<longrightarrow>
            linkOrCopyFunction source destination fpath FTW_F fs = (Return 0, fs2)
            \<and> files fs2 newPath = files fs (Path fpath) \<and> files fs (Path fpath) \<noteq> None
            \<and> contents fs2 newPath = contents fs (Path fpath))
         \<and> (link (Path fpath) newPath fs1 = None \<longrightarrow>
              linkOrCopyFunction source destination fpath FTW_F fs = (Exit 1, fs1)
              \<and> files fs1 = files fs \<and> data fs1 = data fs
              \<and> (\<forall>before after fs0.
                    nftw (linkOrCopyFunction source destination) before fs0 = (Return 0, fs)
                    \<longrightarrow> nftw (linkOrCopyFunction source destination)
                          (before @ (fpath, FTW_F) # after) fs0 = (Exit 1, fs1)))"
proof -
  have ne: "fpath \<noteq> source" using assms(1) by simp
  have at: "length source < length fpath \<and> fpath ! length source = CHR ''/''"
    using assms(1) by (simp add: nth_append)
  have rel: "drop (Suc (length source)) fpath = relativeOldPath"
    using assms(1) by simp
  have f: "linkOrCopyFunction source destination fpath FTW_F fs =
      (case link (Path fpath) newPath fs1 of
         None \<Rightarrow> (Exit 1, fs1)
       | Some fs2 \<Rightarrow> (Return 0, fs2))"
    using ne at assms(2,3) by (simp add: linkOrCopyFunction_def rel Let_def)
  note c = createDirectories_frame [OF assms(3)]
  show ?thesis
  proof (cases "link (Path fpath) newPath fs1")
    case None
    have "nftw (linkOrCopyFunction source destination) (before @ (fpath, FTW_F) # after) fs0
            = (Exit 1, fs1)"
      if "nftw (linkOrCopyFunction source destination) before fs0 = (Return 0, fs)"
      for before after fs0
      using nftw_append [OF that, of "(fpath, FTW_F) # after"] f None by simp
    then show ?thesis using None f c by simp
  next
    case (Some fs2)
    then show ?thesis
      using f c link_frame [OF Some] by (simp add: contents_def)
  qed
qed

text \<open>The theorem where the link is allowed: the file in \<^verbatim>\<open>/sys/lib\<close> is linked into the jail.\<close>

theorem linkOrCopyFunction_links_or_exits_witness:
  "fst (linkOrCopyFunction ''/sys'' [''jail''] ''/sys/lib/libc.so'' FTW_F
      \<lparr>dirs = [[''sys''] \<mapsto> (1, 2), [''sys'', ''lib''] \<mapsto> (3, 4), [''jail''] \<mapsto> (5, 6)],
       files = [[''sys'', ''lib'', ''libc.so''] \<mapsto> 0], data = (\<lambda>i. ''ELF''),
       ftimes = (\<lambda>i. (0, 0)), unused = 1, clock = 7, linkable = (\<lambda>p q. True)\<rparr>) = Return 0
   \<and> files (snd (linkOrCopyFunction ''/sys'' [''jail''] ''/sys/lib/libc.so'' FTW_F
      \<lparr>dirs = [[''sys''] \<mapsto> (1, 2), [''sys'', ''lib''] \<mapsto> (3, 4), [''jail''] \<mapsto> (5, 6)],
       files = [[''sys'', ''lib'', ''libc.so''] \<mapsto> 0], data = (\<lambda>i. ''ELF''),
       ftimes = (\<lambda>i. (0, 0)), unused = 1, clock = 7, linkable = (\<lambda>p q. True)\<rparr>))
       [''jail'', ''lib'', ''libc.so''] = Some 0"
proof -
  let ?fs = "\<lparr>dirs = [[''sys''] \<mapsto> (1, 2), [''sys'', ''lib''] \<mapsto> (3, 4), [''jail''] \<mapsto> (5, 6)],
       files = [[''sys'', ''lib'', ''libc.so''] \<mapsto> 0], data = (\<lambda>i. ''ELF''),
       ftimes = (\<lambda>i. (0, 0)), unused = 1, clock = 7, linkable = (\<lambda>p q. True)\<rparr>"
  let ?fs1 = "?fs\<lparr>dirs := (dirs ?fs)([''jail'', ''lib''] \<mapsto> (7, 7))\<rparr>"
  let ?fs2 = "?fs1\<lparr>files := (files ?fs1)([''jail'', ''lib'', ''libc.so''] \<mapsto> 0)\<rparr>"
  have p: "Path ''lib/libc.so'' = [''lib'', ''libc.so'']"
    "Path ''/sys/lib/libc.so'' = [''sys'', ''lib'', ''libc.so'']"
    by (simp_all add: path_defs)
  have c: "createDirectories (parent ([''jail''] @ Path ''lib/libc.so'')) ?fs = (None, ?fs1)"
    by (simp add: p parent_def createDirectories.simps fs_defs)
  have l: "link (Path ''/sys/lib/libc.so'') ([''jail''] @ Path ''lib/libc.so'') ?fs1 = Some ?fs2"
    by (simp add: p fs_defs parent_def)
  from linkOrCopyFunction_links_or_exits
    [of "''/sys/lib/libc.so''" "''/sys''" "''lib/libc.so''" "[''jail''] @ Path ''lib/libc.so''"
        "[''jail'']" ?fs ?fs1, OF _ refl c] l
  show ?thesis by (simp add: p)
qed

text \<open>
  C3 as the spec states it fails. With the template on a file system that does not allow
  the link, \<^verbatim>\<open>link\<close> fails although a byte copy of the file would succeed; the callback
  ends the process with \<^verbatim>\<open>exit(1)\<close>, the jail has no copy of the file, and
  \<^verbatim>\<open>linkOrCopy\<close> on a walk of the tree ends the same way.
\<close>

theorem linkOrCopyFunction_exits_without_copy_counterexample:
  "link [''sys'', ''libc.so''] [''jail'', ''libc.so'']
      \<lparr>dirs = [[''sys''] \<mapsto> (1, 2), [''jail''] \<mapsto> (5, 6)],
       files = [[''sys'', ''libc.so''] \<mapsto> 0], data = (\<lambda>i. ''ELF''),
       ftimes = (\<lambda>i. (0, 0)), unused = 1, clock = 7, linkable = (\<lambda>p q. False)\<rparr> = None
   \<and> fst (copyTo (\<lambda>s d fs. (Some ''directory'', fs)) [''sys'', ''libc.so''] [''jail'', ''libc.so'']
      \<lparr>dirs = [[''sys''] \<mapsto> (1, 2), [''jail''] \<mapsto> (5, 6)],
       files = [[''sys'', ''libc.so''] \<mapsto> 0], data = (\<lambda>i. ''ELF''),
       ftimes = (\<lambda>i. (0, 0)), unused = 1, clock = 7, linkable = (\<lambda>p q. False)\<rparr>) = None
   \<and> fst (linkOrCopyFunction ''/sys'' [''jail''] ''/sys/libc.so'' FTW_F
      \<lparr>dirs = [[''sys''] \<mapsto> (1, 2), [''jail''] \<mapsto> (5, 6)],
       files = [[''sys'', ''libc.so''] \<mapsto> 0], data = (\<lambda>i. ''ELF''),
       ftimes = (\<lambda>i. (0, 0)), unused = 1, clock = 7, linkable = (\<lambda>p q. False)\<rparr>) = Exit 1
   \<and> files (snd (linkOrCopyFunction ''/sys'' [''jail''] ''/sys/libc.so'' FTW_F
      \<lparr>dirs = [[''sys''] \<mapsto> (1, 2), [''jail''] \<mapsto> (5, 6)],
       files = [[''sys'', ''libc.so''] \<mapsto> 0], data = (\<lambda>i. ''ELF''),
       ftimes = (\<lambda>i. (0, 0)), unused = 1, clock = 7, linkable = (\<lambda>p q. False)\<rparr>))
       [''jail'', ''libc.so''] = None
   \<and> fst (linkOrCopy ''/sys/'' [''jail'']
        [(''/sys/libc.so'', FTW_F), (''/sys/ld.so'', FTW_F), (''/sys'', FTW_DP)]
      \<lparr>dirs = [[''sys''] \<mapsto> (1, 2), [''jail''] \<mapsto> (5, 6)],
       files = [[''sys'', ''libc.so''] \<mapsto> 0], data = (\<lambda>i. ''ELF''),
       ftimes = (\<lambda>i. (0, 0)), unused = 1, clock = 7, linkable = (\<lambda>p q. False)\<rparr>) = Exit 1"
proof -
  have p: "Path ''libc.so'' = [''libc.so'']" "Path ''/sys/libc.so'' = [''sys'', ''libc.so'']"
    by (simp_all add: path_defs)
  show ?thesis
    by (simp add: linkOrCopy_def linkOrCopyFunction_def p Let_def createDirectories.simps
        fs_defs parent_def)
qed

section \<open>C8: what a file transfer that replies OK has done\<close>




end
